theory Spec2Isabelle
  imports Complex_Main "HOL-Library.Product_Lexorder" "HOL-Library.Multiset"
begin

section \<open>The news service: data model\<close>

text \<open>
  A shallow embedding of the Go sources: \<^verbatim>\<open>pkg/models/models.go\<close> (the article),
  the store (\<^verbatim>\<open>package store\<close>: the SQL statements of \<^verbatim>\<open>PgStore\<close>), the service
  (\<^verbatim>\<open>package service\<close>), the LLM client (\<^verbatim>\<open>internal/llm/llm.go\<close>) and
  \<^verbatim>\<open>parseLimit\<close> of the HTTP handlers.

  Conventions. A Go \<^verbatim>\<open>string\<close> is a byte sequence: \<^typ>\<open>string\<close>, and \<^verbatim>\<open>len\<close> is
  \<^const>\<open>length\<close>. A Go \<^verbatim>\<open>int\<close> is \<^typ>\<open>int\<close>; the one place where its 64-bit range
  matters (\<^verbatim>\<open>strconv.Atoi\<close>) writes the range out. A \<^verbatim>\<open>float64\<close> and an SQL
  \<^verbatim>\<open>DOUBLE PRECISION\<close> are idealised as \<^typ>\<open>real\<close>: rounding, infinities and NaN are not
  modelled. A \<^verbatim>\<open>time.Time\<close> is an instant counted from Go's zero time, so
  \<^verbatim>\<open>IsZero\<close> is equality with 0 and \<^verbatim>\<open>UTC()\<close> leaves the instant as it is.
\<close>

type_synonym time = int

text \<open>\<^verbatim>\<open>models.Article\<close>. \<^verbatim>\<open>Categories\<close> is a slice that may be nil (\<open>None\<close>).\<close>

record Article =
  ID :: string
  Title :: string
  Description :: string
  URL :: string
  PublishedAt :: time
  Source :: string
  Categories :: "string list option"
  Relevance :: real
  Latitude :: real
  Longitude :: real
  LLMSummary :: string
  DistanceKm :: real

text \<open>
  A row of the table \<^verbatim>\<open>articles\<close> as \<^verbatim>\<open>RunMigrations\<close> creates it. Only the key is
  \<^verbatim>\<open>NOT NULL\<close> in the schema; the model keeps the nullability of the two columns whose
  \<^verbatim>\<open>NULL\<close> the code itself tests (\<^verbatim>\<open>latitude IS NOT NULL AND longitude IS NOT NULL\<close>).
  The columns \<^verbatim>\<open>id\<close> and \<^verbatim>\<open>url\<close> are named \<open>id_col\<close> and \<open>url_col\<close>.
\<close>

record row =
  id_col :: string
  title :: string
  description :: string
  url_col :: string
  published_at :: time
  source :: string
  categories :: "string list"
  relevance_score :: real
  latitude :: "real option"
  longitude :: "real option"
  llm_summary :: string

text \<open>
  Go's \<^verbatim>\<open>error\<close> values, one constructor for each place the sources build one.
  \<open>Driver\<close> is an error of a library the code passes on (database driver, HTTP transport,
  URL parsing); the wrappers are the \<^verbatim>\<open>fmt.Errorf\<close> calls:
  \<open>InsertArticle i e\<close> is \<^verbatim>\<open>"insert article id=%s: %w"\<close>,
  \<open>ArticleNotFound\<close> is \<^verbatim>\<open>"article not found"\<close>,
  \<open>FetchArticle\<close> is \<^verbatim>\<open>"fetch article: %w"\<close>,
  \<open>LlmSummarize\<close> is \<^verbatim>\<open>"llm summarize: %w"\<close>,
  \<open>SaveSummary\<close> is \<^verbatim>\<open>"save summary: %w"\<close>,
  \<open>LlmNewRequest\<close> is \<^verbatim>\<open>"llm new request: %w"\<close>,
  \<open>LlmRequestFailed\<close> is \<^verbatim>\<open>"llm request failed: %w"\<close> (the transport failed) and
  \<open>LlmStatus s b\<close> is \<^verbatim>\<open>"llm request failed: status=%d body=%s"\<close>.
\<close>

datatype error =
    Driver string
  | InsertArticle string error
  | ArticleNotFound
  | FetchArticle error
  | LlmSummarize error
  | SaveSummary error
  | LlmNewRequest error
  | LlmRequestFailed error
  | LlmStatus int string

section \<open>The LLM client\<close>

subsection \<open>Decoded JSON and \<^verbatim>\<open>bytes.TrimSpace\<close>\<close>

text \<open>
  What \<^verbatim>\<open>json.Unmarshal\<close> stores into a variable of type \<^verbatim>\<open>any\<close>: nil, a bool, a
  float64, a string, a \<^verbatim>\<open>[]any\<close> or a \<^verbatim>\<open>map[string]any\<close>. The map is an association
  list read with \<^const>\<open>map_of\<close>.
\<close>

datatype json =
    JNull
  | JBool bool
  | JNumber real
  | JString string
  | JArray "json list"
  | JObject "(string \<times> json) list"

text \<open>
  \<^verbatim>\<open>bytes.TrimSpace\<close> removes the leading and the trailing white space runes of a UTF-8
  byte string: the six ASCII ones and the encodings of U+0085, U+00A0, U+1680,
  U+2000 to U+200A, U+2028, U+2029, U+202F, U+205F and U+3000.
\<close>

definition asciiSpace :: "char \<Rightarrow> bool" where
  "asciiSpace c = (c \<in> set [CHR 0x09, CHR 0x0A, CHR 0x0B, CHR 0x0C, CHR 0x0D, CHR 0x20])"

definition unicodeSpaces :: "string list" where
  "unicodeSpaces =
     [[CHR 0xC2, CHR 0x85], [CHR 0xC2, CHR 0xA0], [CHR 0xE1, CHR 0x9A, CHR 0x80]] @
     map (\<lambda>b. [CHR 0xE2, CHR 0x80, b])
       [CHR 0x80, CHR 0x81, CHR 0x82, CHR 0x83, CHR 0x84, CHR 0x85, CHR 0x86, CHR 0x87,
        CHR 0x88, CHR 0x89, CHR 0x8A, CHR 0xA8, CHR 0xA9, CHR 0xAF] @
     [[CHR 0xE2, CHR 0x81, CHR 0x9F], [CHR 0xE3, CHR 0x80, CHR 0x80]]"

text \<open>The number of bytes of the white space rune a string starts with, 0 when it starts with none.\<close>

definition spaceWidth :: "string list \<Rightarrow> string \<Rightarrow> nat" where
  "spaceWidth encs s =
     (case s of [] \<Rightarrow> 0
      | c # cs \<Rightarrow> if asciiSpace c then 1
          else (case find (\<lambda>w. w \<noteq> [] \<and> take (length w) s = w) encs of
                  None \<Rightarrow> 0 | Some w \<Rightarrow> length w))"

function TrimLeftFunc :: "string list \<Rightarrow> string \<Rightarrow> string" where
  "TrimLeftFunc encs s =
     (if spaceWidth encs s = 0 then s else TrimLeftFunc encs (drop (spaceWidth encs s) s))"
  by pat_completeness auto
termination
  by (relation "measure (\<lambda>(encs, s). length s)") (auto simp: spaceWidth_def split: list.splits)

declare TrimLeftFunc.simps [simp del]

definition TrimSpace :: "string \<Rightarrow> string" where
  "TrimSpace s = rev (TrimLeftFunc (map rev unicodeSpaces) (rev (TrimLeftFunc unicodeSpaces s)))"

subsection \<open>The normalizer: lines 84 to 157 of \<^verbatim>\<open>SummarizeArticleText\<close>\<close>

text \<open>
  \<^verbatim>\<open>if v, ok := m[k]; ok { if s, ok := v.(string); ok && s != "" { return s, nil } }\<close>:
  the string the code returns at such a test, if it returns there.
\<close>

definition stringNonEmpty :: "json option \<Rightarrow> string option" where
  "stringNonEmpty v =
     (case v of
        Some (JString s) \<Rightarrow> if s \<noteq> [] then Some s else None
      | _ \<Rightarrow> None)"

text \<open>Step 3: \<^verbatim>\<open>choices\<close>, its first element, \<^verbatim>\<open>text\<close> and then \<^verbatim>\<open>message.content\<close>.\<close>

definition fromChoices :: "(string \<times> json) list \<Rightarrow> string option" where
  "fromChoices m =
     (case map_of m ''choices'' of
        Some (JArray (JObject first # rest)) \<Rightarrow>
          (case stringNonEmpty (map_of first ''text'') of
             Some s \<Rightarrow> Some s
           | None \<Rightarrow>
               (case map_of first ''message'' of
                  Some (JObject m2) \<Rightarrow> stringNonEmpty (map_of m2 ''content'')
                | _ \<Rightarrow> None))
      | _ \<Rightarrow> None)"

text \<open>
  Step 4, the body of the loop over \<^verbatim>\<open>results\<close>: \<^verbatim>\<open>buf\<close> after one element. The
  \<^verbatim>\<open>else if\<close> looks at \<^verbatim>\<open>text\<close> only when the element has no key \<^verbatim>\<open>response\<close>.
\<close>

definition resultsStep :: "string \<Rightarrow> json \<Rightarrow> string" where
  "resultsStep buf it =
     (case it of
        JObject oo \<Rightarrow>
          (case map_of oo ''response'' of
             Some r \<Rightarrow> (case r of JString s \<Rightarrow> buf @ s | _ \<Rightarrow> buf)
           | None \<Rightarrow>
               (case map_of oo ''text'' of
                  Some (JString s) \<Rightarrow> buf @ s
                | _ \<Rightarrow> buf))
      | _ \<Rightarrow> buf)"

definition fromResults :: "(string \<times> json) list \<Rightarrow> string option" where
  "fromResults m =
     (case map_of m ''results'' of
        Some (JArray arr) \<Rightarrow>
          if arr \<noteq> [] then
            (let buf = foldl resultsStep [] arr in if buf \<noteq> [] then Some buf else None)
          else None
      | _ \<Rightarrow> None)"

text \<open>
  The normalizer. \<^verbatim>\<open>json.Unmarshal\<close> belongs to Go's library and is a parameter:
  \<open>unmarshal b\<close> is the decoded value, \<open>None\<close> when \<^verbatim>\<open>Unmarshal\<close> returns an error.
\<close>

definition normalizer :: "(string \<Rightarrow> json option) \<Rightarrow> string \<Rightarrow> string" where
  "normalizer unmarshal respBody =
     (case unmarshal respBody of
        None \<Rightarrow> respBody
      | Some parsed \<Rightarrow>
          (case (case parsed of
                   JObject m \<Rightarrow>
                     (case stringNonEmpty (map_of m ''response'') of
                        Some s \<Rightarrow> Some s
                      | None \<Rightarrow>
                          (case stringNonEmpty (map_of m ''text'') of
                             Some s \<Rightarrow> Some s
                           | None \<Rightarrow>
                               (case fromChoices m of
                                  Some s \<Rightarrow> Some s
                                | None \<Rightarrow> fromResults m)))
                 | _ \<Rightarrow> None) of
             Some s \<Rightarrow> s
           | None \<Rightarrow> TrimSpace respBody))"

subsection \<open>\<^verbatim>\<open>SummarizeArticleText\<close>\<close>

record Client =
  url :: string
  model :: string

text \<open>The request: the URL and the JSON body \<^verbatim>\<open>{model, prompt, max_tokens, stream}\<close>.\<close>

record http_request =
  req_url :: string
  req_model :: string
  req_prompt :: string
  req_max_tokens :: int
  req_stream :: bool

record http_response =
  StatusCode :: int
  Body :: string

text \<open>
  The statements the store sends to the database, with their bound parameters.
\<close>

datatype stmt =
    Beginx
  | Commit
  | Insert row
  | SelectSearch string int
  | SelectByID string
  | SelectByIDs "string list"
  | UpdateSummary string string
  | SelectNearby real real real int

text \<open>
  What the code calls and this repository does not define:
  \<^item> \<open>fault\<close>: the error with which the database refuses a statement (a lost connection,
    a violated constraint, an identifier that is no UUID), \<open>None\<close> when it executes it;
  \<^item> \<open>uuid_New\<close> and \<open>time_Now\<close>: the \<open>n\<close>-th value \<^verbatim>\<open>uuid.New().String()\<close> and
    \<^verbatim>\<open>time.Now()\<close> return;
  \<^item> \<open>NewRequest\<close>: the error of \<^verbatim>\<open>http.NewRequestWithContext\<close> for a URL, if any;
  \<^item> \<open>hc_Do\<close>: the outcome of \<^verbatim>\<open>c.hc.Do(req)\<close> followed by reading the body, a
    transport error or the response;
  \<^item> \<open>json_Unmarshal\<close>: \<^verbatim>\<open>json.Unmarshal\<close> into an \<^verbatim>\<open>any\<close>.
\<close>

record env =
  fault :: "stmt \<Rightarrow> string option"
  uuid_New :: "nat \<Rightarrow> string"
  time_Now :: "nat \<Rightarrow> time"
  NewRequest :: "string \<Rightarrow> string option"
  hc_Do :: "http_request \<Rightarrow> string + http_response"
  json_Unmarshal :: "string \<Rightarrow> json option"

text \<open>
  The state the code works on: the table, how many identifiers and clock readings were
  drawn, and the calls of the LLM client so far (title and content of each).
\<close>

record world =
  articles :: "row list"
  uuids :: nat
  clock :: nat
  llm_calls :: "(string \<times> string) list"

definition buildPrompt :: "string \<Rightarrow> string \<Rightarrow> string" where
  "buildPrompt t content =
     ''Summarize the following news article in 2-3 sentences. Title: '' @ t @
     ''\<newline>\<newline>Article: '' @ content @ ''\<newline>\<newline>Summary:''"

text \<open>
  \<^verbatim>\<open>json.Marshal\<close> of a map of two strings, a number and a bool returns no error, so that
  branch is absent. The clock is read twice around \<^verbatim>\<open>c.hc.Do\<close> (for the log line).
\<close>

definition SummarizeArticleText ::
  "env \<Rightarrow> Client \<Rightarrow> string \<Rightarrow> string \<Rightarrow> world \<Rightarrow> (error + string) \<times> world" where
  "SummarizeArticleText e c t content w =
     (let w1 = w\<lparr>llm_calls := llm_calls w @ [(t, content)]\<rparr>;
          req = \<lparr>req_url = url c, req_model = model c, req_prompt = buildPrompt t content,
                 req_max_tokens = 256, req_stream = False\<rparr>
      in case NewRequest e (url c) of
           Some err \<Rightarrow> (Inl (LlmNewRequest (Driver err)), w1)
         | None \<Rightarrow>
             (let w2 = w1\<lparr>clock := clock w1 + 2\<rparr>
              in case hc_Do e req of
                   Inl err \<Rightarrow> (Inl (LlmRequestFailed (Driver err)), w2)
                 | Inr resp \<Rightarrow>
                     if StatusCode resp < 200 \<or> StatusCode resp \<ge> 300
                     then (Inl (LlmStatus (StatusCode resp) (Body resp)), w2)
                     else (Inr (normalizer (json_Unmarshal e) (Body resp)), w2)))"

section \<open>The store\<close>

subsection \<open>\<^verbatim>\<open>SaveMany\<close>\<close>

text \<open>The first half of the loop body: the defaults written into the article.\<close>

definition fillDefaults :: "env \<Rightarrow> Article \<Rightarrow> world \<Rightarrow> Article \<times> world" where
  "fillDefaults e a w =
     (let (a1, w1) = (if ID a = [] then (a\<lparr>ID := uuid_New e (uuids w)\<rparr>, w\<lparr>uuids := Suc (uuids w)\<rparr>)
                      else (a, w));
          a2 = (if Categories a1 = None then a1\<lparr>Categories := Some []\<rparr> else a1)
      in if PublishedAt a2 = 0
         then (a2\<lparr>PublishedAt := time_Now e (clock w1)\<rparr>, w1\<lparr>clock := Suc (clock w1)\<rparr>)
         else (a2, w1))"

text \<open>
  The parameters \<^verbatim>\<open>$1\<close> to \<^verbatim>\<open>$11\<close> of the \<^verbatim>\<open>INSERT\<close>. \<^verbatim>\<open>StringSlice.Value\<close> writes a
  nil slice as \<^verbatim>\<open>[]\<close>; a \<^verbatim>\<open>float64\<close> is never \<^verbatim>\<open>NULL\<close>.
\<close>

definition insertParams :: "Article \<Rightarrow> row" where
  "insertParams a =
     \<lparr>id_col = ID a, title = Title a, description = Description a, url_col = URL a,
      published_at = PublishedAt a, source = Source a,
      categories = (case Categories a of None \<Rightarrow> [] | Some cs \<Rightarrow> cs),
      relevance_score = Relevance a, latitude = Some (Latitude a),
      longitude = Some (Longitude a), llm_summary = LLMSummary a\<rparr>"

text \<open>
  \<^verbatim>\<open>INSERT ... ON CONFLICT (id) DO UPDATE SET\<close> every other column: the row with this key
  is replaced, and the row is added when the key is new.
\<close>

fun upsert :: "row \<Rightarrow> row list \<Rightarrow> row list" where
  "upsert r [] = [r]"
| "upsert r (x # xs) = (if id_col x = id_col r then r # xs else x # upsert r xs)"

text \<open>
  The loop, on the rows as the transaction sees them. It returns the error (if any), the
  articles as the loop leaves them (they are pointers: the defaults stay written), the
  transaction's rows and the state.
\<close>

fun saveLoop ::
  "env \<Rightarrow> Article list \<Rightarrow> row list \<Rightarrow> world \<Rightarrow> error option \<times> Article list \<times> row list \<times> world" where
  "saveLoop e [] tx w = (None, [], tx, w)"
| "saveLoop e (a # rest) tx w =
     (case fillDefaults e a w of
        (a', w') \<Rightarrow>
          (case fault e (Insert (insertParams a')) of
             Some err \<Rightarrow> (Some (InsertArticle (ID a') (Driver err)), a' # rest, tx, w')
           | None \<Rightarrow>
               (case saveLoop e rest (upsert (insertParams a') tx) w' of
                  (r, rest', tx', w'') \<Rightarrow> (r, a' # rest', tx', w''))))"

text \<open>
  \<^verbatim>\<open>SaveMany\<close>: \<^verbatim>\<open>Beginx\<close>, the loop, \<^verbatim>\<open>tx.Rollback()\<close> at the first refused insert (the
  transaction's rows are dropped), \<^verbatim>\<open>tx.Commit()\<close> otherwise (they become the table).
\<close>

definition SaveMany :: "env \<Rightarrow> Article list \<Rightarrow> world \<Rightarrow> error option \<times> Article list \<times> world" where
  "SaveMany e arts w =
     (case fault e Beginx of
        Some err \<Rightarrow> (Some (Driver err), arts, w)
      | None \<Rightarrow>
          (case saveLoop e arts (articles w) w of
             (Some err, arts', tx, w') \<Rightarrow> (Some err, arts', w')
           | (None, arts', tx, w') \<Rightarrow>
               (case fault e Commit of
                  Some err \<Rightarrow> (Some (Driver err), arts', w')
                | None \<Rightarrow> (None, arts', w'\<lparr>articles := tx\<rparr>))))"

subsection \<open>Reading rows\<close>

text \<open>
  \<^verbatim>\<open>sqlx\<close> scans a row into a fresh \<^verbatim>\<open>models.Article\<close>; a \<^verbatim>\<open>NULL\<close> does not scan into a
  \<^verbatim>\<open>float64\<close>. The first argument is the column \<^verbatim>\<open>distance_km\<close>; a statement that does
  not select it leaves the field 0.
\<close>

definition scan :: "row \<times> real \<Rightarrow> error + Article" where
  "scan rd =
     (case rd of
        (r, d) \<Rightarrow>
          (case (latitude r, longitude r) of
             (Some la, Some lo) \<Rightarrow>
               Inr \<lparr>ID = id_col r, Title = title r, Description = description r, URL = url_col r,
                    PublishedAt = published_at r, Source = source r,
                    Categories = Some (categories r), Relevance = relevance_score r,
                    Latitude = la, Longitude = lo, LLMSummary = llm_summary r,
                    DistanceKm = d\<rparr>
           | _ \<Rightarrow> Inl (Driver ''converting NULL to float64 is unsupported'')))"

fun scanAll :: "(row \<times> real) list \<Rightarrow> error + Article list" where
  "scanAll [] = Inr []"
| "scanAll (rd # rds) =
     (case scan rd of
        Inl err \<Rightarrow> Inl err
      | Inr a \<Rightarrow> (case scanAll rds of Inl err \<Rightarrow> Inl err | Inr rest \<Rightarrow> Inr (a # rest)))"

definition noDistance :: "row list \<Rightarrow> (row \<times> real) list" where
  "noDistance rs = map (\<lambda>r. (r, 0)) rs"

text \<open>
  \<^verbatim>\<open>GetByIDs\<close>: no identifier, one (\<^verbatim>\<open>WHERE id = $1 LIMIT 1\<close>), several
  (\<^verbatim>\<open>WHERE id = ANY($1::uuid[])\<close>).
\<close>

definition GetByIDs :: "env \<Rightarrow> string list \<Rightarrow> world \<Rightarrow> error + Article list" where
  "GetByIDs e ids w =
     (case ids of
        [] \<Rightarrow> Inr []
      | [i] \<Rightarrow>
          (case fault e (SelectByID i) of
             Some err \<Rightarrow> Inl (Driver err)
           | None \<Rightarrow> scanAll (noDistance (take 1 (filter (\<lambda>r. id_col r = i) (articles w)))))
      | _ \<Rightarrow>
          (case fault e (SelectByIDs ids) of
             Some err \<Rightarrow> Inl (Driver err)
           | None \<Rightarrow> scanAll (noDistance (filter (\<lambda>r. id_col r \<in> set ids) (articles w)))))"

text \<open>\<^verbatim>\<open>UPDATE articles SET llm_summary = $1 WHERE id = $2\<close>.\<close>

definition UpdateLLMSummary :: "env \<Rightarrow> string \<Rightarrow> string \<Rightarrow> world \<Rightarrow> error option \<times> world" where
  "UpdateLLMSummary e i summary w =
     (case fault e (UpdateSummary summary i) of
        Some err \<Rightarrow> (Some (Driver err), w)
      | None \<Rightarrow>
          (None, w\<lparr>articles :=
                     map (\<lambda>r. if id_col r = i then r\<lparr>llm_summary := summary\<rparr> else r) (articles w)\<rparr>))"

subsection \<open>\<^verbatim>\<open>Search\<close>\<close>

text \<open>
  \<^verbatim>\<open>LIKE\<close> of the database, text first and pattern second, on bytes: \<^verbatim>\<open>%\<close> stands for
  any text, \<^verbatim>\<open>_\<close> for any one character, and a backslash takes the character after it
  literally. A pattern that ends in a lone backslash is refused by the database; here it
  matches nothing (the patterns of \<^verbatim>\<open>Search\<close> end in \<^verbatim>\<open>%\<close>).
\<close>

fun LIKE :: "string \<Rightarrow> string \<Rightarrow> bool" where
  "LIKE t [] = (t = [])"
| "LIKE t (p # ps) =
     (if p = CHR ''%'' then
        (LIKE t ps \<or> (case t of [] \<Rightarrow> False | c # cs \<Rightarrow> LIKE cs (p # ps)))
      else if p = CHR ''_'' then
        (case t of [] \<Rightarrow> False | c # cs \<Rightarrow> LIKE cs ps)
      else if p = CHR 0x5C then
        (case ps of
           [] \<Rightarrow> False
         | q # qs \<Rightarrow> (case t of [] \<Rightarrow> False | c # cs \<Rightarrow> c = q \<and> LIKE cs qs))
      else (case t of [] \<Rightarrow> False | c # cs \<Rightarrow> c = p \<and> LIKE cs ps))"

text \<open>\<^verbatim>\<open>ILIKE\<close> folds the case of both sides (of the letters A to Z here) and matches.\<close>

definition lower :: "char \<Rightarrow> char" where
  "lower c =
     (case map_of (zip ''ABCDEFGHIJKLMNOPQRSTUVWXYZ'' ''abcdefghijklmnopqrstuvwxyz'') c of
        None \<Rightarrow> c
      | Some l \<Rightarrow> l)"

definition ILIKE :: "string \<Rightarrow> string \<Rightarrow> bool" where
  "ILIKE t p = LIKE (map lower t) (map lower p)"

text \<open>
  \<^verbatim>\<open>ORDER BY relevance_score DESC, published_at DESC\<close>: ascending in the negated pair,
  lexicographically. Rows with equal keys come in an order SQL leaves open; the model
  keeps them in table order.
\<close>

definition byRelevanceRecency :: "row \<Rightarrow> real \<times> int" where
  "byRelevanceRecency r = (- relevance_score r, - published_at r)"

definition Search :: "env \<Rightarrow> string \<Rightarrow> int \<Rightarrow> world \<Rightarrow> error + Article list" where
  "Search e q limit w =
     (let limit' = (if limit \<le> 0 \<or> limit > 100 then 10 else limit);
          like = ''%'' @ q @ ''%''
      in case fault e (SelectSearch like limit') of
           Some err \<Rightarrow> Inl (Driver err)
         | None \<Rightarrow>
             scanAll (noDistance (take (nat limit')
               (sort_key byRelevanceRecency
                  (filter (\<lambda>r. ILIKE (title r) like \<or> ILIKE (description r) like) (articles w))))))"

subsection \<open>\<^verbatim>\<open>Nearby\<close>\<close>





section \<open>The service\<close>

text \<open>
  Lines 52 to 61 of \<^verbatim>\<open>Service.SummarizeArticle\<close>: the text to summarize, the description
  or else the title, cut to its first 30000 bytes.
\<close>

definition summaryContent :: "Article \<Rightarrow> string" where
  "summaryContent art =
     (let content = Description art;
          content = (if content = [] then Title art else content)
      in if length content > 30000 then take 30000 content else content)"

text \<open>
  \<^verbatim>\<open>Service.SummarizeArticle\<close>. \<^verbatim>\<open>art\<close> is a pointer: \<^verbatim>\<open>SaveMany\<close> works on the article
  the service changed and \<^verbatim>\<open>UpdateLLMSummary\<close> reads its \<^verbatim>\<open>ID\<close> after \<^verbatim>\<open>SaveMany\<close>
  (the list \<^verbatim>\<open>SaveMany\<close> returns has the length of the one it is given).
\<close>

definition SummarizeArticle :: "env \<Rightarrow> Client \<Rightarrow> string \<Rightarrow> world \<Rightarrow> (error + string) \<times> world" where
  "SummarizeArticle e c i w =
     (case GetByIDs e [i] w of
        Inl err \<Rightarrow> (Inl (FetchArticle err), w)
      | Inr [] \<Rightarrow> (Inl ArticleNotFound, w)
      | Inr (art # others) \<Rightarrow>
          (case SummarizeArticleText e c (Title art) (summaryContent art) w of
             (Inl err, w1) \<Rightarrow> (Inl (LlmSummarize err), w1)
           | (Inr summary, w1) \<Rightarrow>
               (case SaveMany e [art\<lparr>LLMSummary := summary\<rparr>] w1 of
                  (Some err, arts, w2) \<Rightarrow> (Inl (SaveSummary err), w2)
                | (None, arts, w2) \<Rightarrow>
                    (case UpdateLLMSummary e (ID (hd arts)) summary w2 of
                       (Some err, w3) \<Rightarrow> (Inl (SaveSummary err), w3)
                     | (None, w3) \<Rightarrow> (Inr summary, w3)))))"


definition Service_Search :: "env \<Rightarrow> string \<Rightarrow> int \<Rightarrow> world \<Rightarrow> error + Article list" where
  "Service_Search e q limit w = Search e q limit w"

section \<open>The HTTP handlers\<close>

text \<open>
  \<^verbatim>\<open>strconv.Atoi\<close>: an optional sign, then decimal digits, at least one; the value must
  fit a 64-bit \<^verbatim>\<open>int\<close>. \<open>None\<close> is the error.
\<close>

definition isDigit :: "char \<Rightarrow> bool" where
  "isDigit c = (48 \<le> (of_char c :: nat) \<and> (of_char c :: nat) \<le> 57)"

definition digitsValue :: "string \<Rightarrow> int" where
  "digitsValue ds = foldl (\<lambda>n c. 10 * n + (int (of_char c) - 48)) 0 ds"

definition Atoi :: "string \<Rightarrow> int option" where
  "Atoi s =
     (let (neg, ds) = (case s of
                         [] \<Rightarrow> (False, [])
                       | c # cs \<Rightarrow> if c = CHR ''-'' then (True, cs)
                                   else if c = CHR ''+'' then (False, cs) else (False, s))
      in if ds = [] \<or> \<not> list_all isDigit ds then None
         else (let v = (if neg then - digitsValue ds else digitsValue ds)
               in if v < - (2 ^ 63) \<or> v > 2 ^ 63 - 1 then None else Some v))"

definition parseLimit :: "string \<Rightarrow> int" where
  "parseLimit s =
     (case Atoi s of
        None \<Rightarrow> 10
      | Some l \<Rightarrow> if l \<le> 0 then 10 else if l > 200 then 200 else l)"

text \<open>
  \<^verbatim>\<open>c.DefaultQuery(key, d)\<close> of the router: the parameter's value, \<open>d\<close> when the query
  string has no such key.
\<close>

definition DefaultQuery :: "string option \<Rightarrow> string \<Rightarrow> string" where
  "DefaultQuery param d = (case param of None \<Rightarrow> d | Some v \<Rightarrow> v)"

text \<open>
  \<^verbatim>\<open>Handler.Search\<close>, up to the call of the service: the query \<^verbatim>\<open>q\<close> (empty when
  absent) and the parameter \<^verbatim>\<open>limit\<close>.
\<close>

definition Handler_Search :: "env \<Rightarrow> string \<Rightarrow> string option \<Rightarrow> world \<Rightarrow> int \<times> (error + Article list)" where
  "Handler_Search e q limitParam w =
     (let lim = parseLimit (DefaultQuery limitParam ''10'')
      in (lim, Service_Search e q lim w))"

section \<open>The vocabulary of the specification\<close>

text \<open>
  The normalizer as the specification words it: an ordered list of rules, each a function
  from the decoded object to an optional string, the first rule that yields a string wins.
  ``A \<open>k\<close> string field'' is a field \<open>k\<close> whose value is a string that is not empty.
\<close>

definition spec_string_field :: "string \<Rightarrow> (string \<times> json) list \<Rightarrow> string option" where
  "spec_string_field k m =
     (case map_of m k of
        Some (JString s) \<Rightarrow> if s = [] then None else Some s
      | _ \<Rightarrow> None)"

definition spec_rule_choices :: "(string \<times> json) list \<Rightarrow> string option" where
  "spec_rule_choices m =
     (case map_of m ''choices'' of
        Some (JArray (JObject first # rest)) \<Rightarrow>
          (case spec_string_field ''text'' first of
             Some s \<Rightarrow> Some s
           | None \<Rightarrow>
               (case map_of first ''message'' of
                  Some (JObject msg) \<Rightarrow> spec_string_field ''content'' msg
                | _ \<Rightarrow> None))
      | _ \<Rightarrow> None)"

text \<open>
  The string an element of \<^verbatim>\<open>results\<close> exposes: that of its field \<^verbatim>\<open>response\<close> when it
  has such a field, that of its field \<^verbatim>\<open>text\<close> otherwise; nothing when the field is no
  string or the element no object.
\<close>

definition spec_exposed :: "json \<Rightarrow> string" where
  "spec_exposed it =
     (case it of
        JObject oo \<Rightarrow>
          (case map_of oo ''response'' of
             Some (JString s) \<Rightarrow> s
           | Some other \<Rightarrow> []
           | None \<Rightarrow> (case map_of oo ''text'' of Some (JString s) \<Rightarrow> s | _ \<Rightarrow> []))
      | _ \<Rightarrow> [])"

definition spec_rule_results :: "(string \<times> json) list \<Rightarrow> string option" where
  "spec_rule_results m =
     (case map_of m ''results'' of
        Some (JArray arr) \<Rightarrow>
          (let s = concat (map spec_exposed arr) in if s = [] then None else Some s)
      | _ \<Rightarrow> None)"

definition spec_rules :: "((string \<times> json) list \<Rightarrow> string option) list" where
  "spec_rules =
     [spec_string_field ''response'', spec_string_field ''text'', spec_rule_choices,
      spec_rule_results]"

fun first_rule :: "('a \<Rightarrow> 'b option) list \<Rightarrow> 'a \<Rightarrow> 'b option" where
  "first_rule [] m = None"
| "first_rule (f # fs) m = (case f m of Some s \<Rightarrow> Some s | None \<Rightarrow> first_rule fs m)"

text \<open>``\<open>q\<close> is a substring of \<open>t\<close>'', and the same with the case of the letters folded.\<close>

definition substring :: "string \<Rightarrow> string \<Rightarrow> bool" where
  "substring q t = list_ex (\<lambda>k. take (length q) (drop k t) = q) [0..<Suc (length t)]"

definition substring_fold :: "string \<Rightarrow> string \<Rightarrow> bool" where
  "substring_fold q t = substring (map lower q) (map lower t)"

text \<open>A character that a pattern of \<^verbatim>\<open>LIKE\<close> takes for itself.\<close>

definition plain :: "char \<Rightarrow> bool" where
  "plain c = (c \<noteq> CHR ''%'' \<and> c \<noteq> CHR ''_'' \<and> c \<noteq> CHR 0x5C)"

text \<open>
  The table has a primary key: no two rows share an identifier. A row written by
  \<^verbatim>\<open>SaveMany\<close> has an identifier, a publication time and both coordinates.
\<close>

definition primaryKey :: "row list \<Rightarrow> bool" where
  "primaryKey rs = distinct (map id_col rs)"

definition saved :: "row \<Rightarrow> bool" where
  "saved r = (id_col r \<noteq> [] \<and> published_at r \<noteq> 0 \<and> latitude r \<noteq> None \<and> longitude r \<noteq> None)"

text \<open>The text \<^verbatim>\<open>SummarizeArticle\<close> is to send for a stored row, as the specification words it.\<close>

definition spec_content :: "row \<Rightarrow> string" where
  "spec_content r = take 30000 (if description r \<noteq> [] then description r else title r)"


section \<open>A small instance\<close>

text \<open>One stored article, a client, and collaborators given by their answers.\<close>

definition demoRow :: row where
  "demoRow =
     \<lparr>id_col = ''a1'', title = ''a'', description = [], url_col = [], published_at = 5,
      source = [], categories = [], relevance_score = 0, latitude = Some 0,
      longitude = Some 0, llm_summary = []\<rparr>"

definition demoArticle :: "string \<Rightarrow> Article" where
  "demoArticle i =
     \<lparr>ID = i, Title = ''t'', Description = ''d'', URL = [], PublishedAt = 7, Source = [],
      Categories = None, Relevance = 0, Latitude = 0, Longitude = 0, LLMSummary = [],
      DistanceKm = 0\<rparr>"

definition demoWorld :: world where
  "demoWorld = \<lparr>articles = [demoRow], uuids = 0, clock = 0, llm_calls = []\<rparr>"

definition demoClient :: Client where
  "demoClient = \<lparr>url = ''http://llm'', model = ''m''\<rparr>"

definition demoEnv ::
  "(stmt \<Rightarrow> string option) \<Rightarrow> (string + http_response) \<Rightarrow> (string \<Rightarrow> json option) \<Rightarrow> env" where
  "demoEnv flt reply unmarshal =
     \<lparr>fault = flt, uuid_New = (\<lambda>n. ''u''), time_Now = (\<lambda>n. 1), NewRequest = (\<lambda>u. None),
      hc_Do = (\<lambda>req. reply), json_Unmarshal = unmarshal\<rparr>"

definition noFault :: "stmt \<Rightarrow> string option" where
  "noFault s = None"

text \<open>
  Collaborators that never fail and are never asked for a summary, and the stored article
  as a query returns it.
\<close>

definition undecoded :: "string \<Rightarrow> json option" where
  "undecoded b = None"

definition quietEnv :: env where
  "quietEnv = demoEnv noFault (Inl []) undecoded"

definition demoFound :: Article where
  "demoFound =
     \<lparr>ID = ''a1'', Title = ''a'', Description = [], URL = [], PublishedAt = 5, Source = [],
      Categories = Some [], Relevance = 0, Latitude = 0, Longitude = 0, LLMSummary = [],
      DistanceKm = 0\<rparr>"

text \<open>
  A database whose column \<^verbatim>\<open>id\<close> has the type \<^verbatim>\<open>UUID\<close>, as \<^verbatim>\<open>RunMigrations\<close> declares it:
  it refuses the query \<^verbatim>\<open>WHERE id = $1\<close> when the parameter does not hold the 32
  hexadecimal digits of a UUID.
\<close>

definition isHexDigit :: "char \<Rightarrow> bool" where
  "isHexDigit c = (c \<in> set ''0123456789abcdefABCDEF'')"

definition uuidColumn :: "stmt \<Rightarrow> string option" where
  "uuidColumn s =
     (case s of
        SelectByID i \<Rightarrow>
          if length (filter isHexDigit i) = 32 then None
          else Some ''invalid input syntax for type uuid''
      | _ \<Rightarrow> None)"

definition uuidEnv :: env where
  "uuidEnv = demoEnv uuidColumn (Inl []) undecoded"

text \<open>A database that refuses to insert a row whose identifier is \<^verbatim>\<open>bad\<close>.\<close>

definition refuseBad :: "stmt \<Rightarrow> string option" where
  "refuseBad s =
     (case s of
        Insert r \<Rightarrow> if id_col r = ''bad'' then Some ''invalid input syntax for type uuid'' else None
      | _ \<Rightarrow> None)"

section \<open>The normalizer and the client\<close>

lemma stringNonEmpty_spec: "stringNonEmpty (map_of m k) = spec_string_field k m"
  by (simp add: stringNonEmpty_def spec_string_field_def split: option.splits json.splits)

lemma fromChoices_spec: "fromChoices m = spec_rule_choices m"
  by (simp add: fromChoices_def spec_rule_choices_def stringNonEmpty_spec
           split: option.splits json.splits list.splits)

lemma resultsStep_spec: "resultsStep buf it = buf @ spec_exposed it"
  by (simp add: resultsStep_def spec_exposed_def split: json.splits option.splits)

lemma foldl_resultsStep: "foldl resultsStep buf arr = buf @ concat (map spec_exposed arr)"
  by (induction arr arbitrary: buf) (simp_all add: resultsStep_spec)

lemma fromResults_spec: "fromResults m = spec_rule_results m"
  by (simp add: fromResults_def spec_rule_results_def foldl_resultsStep Let_def
           split: option.splits json.splits)

lemma normalizer_object:
  "unmarshal body = Some (JObject m) \<Longrightarrow>
     normalizer unmarshal body =
       (case first_rule spec_rules m of Some s \<Rightarrow> s | None \<Rightarrow> TrimSpace body)"
  by (simp add: normalizer_def spec_rules_def stringNonEmpty_spec fromChoices_spec
        fromResults_spec split: option.splits)

lemma normalizer_undecoded: "unmarshal body = None \<Longrightarrow> normalizer unmarshal body = body"
  by (simp add: normalizer_def)

lemma TrimSpace_plain_text: "TrimSpace (''plain text'' @ [CHR 0x0A]) = ''plain text''"
  by (simp add: TrimSpace_def TrimLeftFunc.simps spaceWidth_def asciiSpace_def unicodeSpaces_def)

text \<open>
  C2. When the body decodes to an object, the normalizer returns what the first of the
  four rules (\<^verbatim>\<open>response\<close>; \<^verbatim>\<open>text\<close>; \<^verbatim>\<open>choices\<close>, first element, \<^verbatim>\<open>text\<close> else
  \<^verbatim>\<open>message.content\<close>; \<^verbatim>\<open>results\<close>, concatenated in array order) yields, a rule yielding
  only a string that is not empty, and the trimmed body when no rule yields one. The three
  objects of the specification give \<^verbatim>\<open>A\<close>, \<^verbatim>\<open>B\<close> and \<^verbatim>\<open>CD\<close>.
\<close>

theorem normalizer_precedence:
  assumes "unmarshal body = Some (JObject m)"
  shows "normalizer unmarshal body =
           (case first_rule spec_rules m of Some s \<Rightarrow> s | None \<Rightarrow> TrimSpace body)
         \<and> (m = [(''response'', JString ''A'')] \<longrightarrow> normalizer unmarshal body = ''A'')
         \<and> (m = [(''choices'', JArray [JObject [(''text'', JString ''B'')]])]
              \<longrightarrow> normalizer unmarshal body = ''B'')
         \<and> (m = [(''results'', JArray [JObject [(''text'', JString ''C'')],
                                         JObject [(''response'', JString ''D'')]])]
              \<longrightarrow> normalizer unmarshal body = ''CD'')"
proof -
  have a: "first_rule spec_rules [(''response'', JString ''A'')] = Some ''A''"
    by (simp add: spec_rules_def spec_string_field_def)
  have b: "first_rule spec_rules [(''choices'', JArray [JObject [(''text'', JString ''B'')]])]
             = Some ''B''"
    by (simp add: spec_rules_def spec_string_field_def spec_rule_choices_def)
  have c: "first_rule spec_rules [(''results'', JArray [JObject [(''text'', JString ''C'')],
                                         JObject [(''response'', JString ''D'')]])] = Some ''CD''"
    by (simp add: spec_rules_def spec_string_field_def spec_rule_choices_def
          spec_rule_results_def spec_exposed_def)
  show ?thesis
    using normalizer_object [of unmarshal body m] assms a b c by simp
qed

text \<open>
  An object whose \<^verbatim>\<open>response\<close> is the empty string: the rule falls through, and
  \<^verbatim>\<open>text\<close> wins over \<^verbatim>\<open>choices\<close>.
\<close>

theorem normalizer_precedence_witness:
  "(\<lambda>b. Some (JObject [(''response'', JString []), (''text'', JString ''T''),
                        (''choices'', JArray [JObject [(''text'', JString ''B'')]])])) ''raw''
     = Some (JObject [(''response'', JString []), (''text'', JString ''T''),
                      (''choices'', JArray [JObject [(''text'', JString ''B'')]])])
   \<and> normalizer (\<lambda>b. Some (JObject [(''response'', JString []), (''text'', JString ''T''),
                        (''choices'', JArray [JObject [(''text'', JString ''B'')]])])) ''raw'' = ''T''"
  using normalizer_precedence [of "\<lambda>b. Some (JObject [(''response'', JString []),
            (''text'', JString ''T''), (''choices'', JArray [JObject [(''text'', JString ''B'')]])])"
          "''raw''"
          "[(''response'', JString []), (''text'', JString ''T''),
            (''choices'', JArray [JObject [(''text'', JString ''B'')]])]"]
  by (simp add: spec_rules_def spec_string_field_def)

text \<open>
  C8. What the code does with a body that does not decode: it returns the body as it is,
  white space included. The claim has it trimmed, as the fallback at the end of the
  function does.
\<close>

theorem normalizer_not_json:
  assumes "unmarshal body = None"
  shows "normalizer unmarshal body = body"
  using assms by (rule normalizer_undecoded)

text \<open>The body \<^verbatim>\<open>plain text\<close> with a newline after it comes back with the newline.\<close>

theorem normalizer_not_json_witness:
  "(\<lambda>b. None :: json option) (''plain text'' @ [CHR 0x0A]) = None
   \<and> normalizer (\<lambda>b. None) (''plain text'' @ [CHR 0x0A]) = ''plain text'' @ [CHR 0x0A]
   \<and> TrimSpace (''plain text'' @ [CHR 0x0A]) = ''plain text''
   \<and> normalizer (\<lambda>b. None) (''plain text'' @ [CHR 0x0A]) \<noteq> TrimSpace (''plain text'' @ [CHR 0x0A])"
proof -
  have n: "normalizer (\<lambda>b. None) (''plain text'' @ [CHR 0x0A]) = ''plain text'' @ [CHR 0x0A]"
    using normalizer_not_json [of "\<lambda>b. None" "''plain text'' @ [CHR 0x0A]"] by simp
  show ?thesis
    unfolding n TrimSpace_plain_text by simp
qed




section \<open>The store and the service\<close>

lemma fillDefaults_frame:
  "articles (snd (fillDefaults e a w)) = articles w"
  "llm_calls (snd (fillDefaults e a w)) = llm_calls w"
  by (simp_all add: fillDefaults_def Let_def split: prod.splits)

lemma saveLoop_frame:
  "saveLoop e arts tx w = (r, arts', tx', w') \<Longrightarrow>
     articles w' = articles w \<and> llm_calls w' = llm_calls w \<and> length arts' = length arts"
proof (induction arts arbitrary: tx w r arts' tx' w')
  case Nil
  then show ?case by simp
next
  case (Cons a rest)
  obtain a1 w1 where f: "fillDefaults e a w = (a1, w1)"
    by (cases "fillDefaults e a w")
  have w1: "articles w1 = articles w" "llm_calls w1 = llm_calls w"
    using fillDefaults_frame [of e a w] f by simp_all
  show ?case
  proof (cases "fault e (Insert (insertParams a1))")
    case (Some err)
    then show ?thesis using Cons.prems f w1 by auto
  next
    case None
    obtain r2 rest2 tx2 w2 where s: "saveLoop e rest (upsert (insertParams a1) tx) w1 = (r2, rest2, tx2, w2)"
      by (cases "saveLoop e rest (upsert (insertParams a1) tx) w1")
    from Cons.IH [OF s] Cons.prems f None s w1 show ?thesis by auto
  qed
qed

lemma SaveMany_frame:
  "SaveMany e arts w = (r, arts', w') \<Longrightarrow>
     llm_calls w' = llm_calls w \<and> length arts' = length arts"
proof -
  assume a: "SaveMany e arts w = (r, arts', w')"
  obtain r2 arts2 tx2 w2 where s: "saveLoop e arts (articles w) w = (r2, arts2, tx2, w2)"
    by (cases "saveLoop e arts (articles w) w")
  from saveLoop_frame [OF s] a s show ?thesis
    by (auto simp: SaveMany_def split: option.splits)
qed

lemma SaveMany_error_keeps_table:
  "SaveMany e arts w = (Some err, arts', w') \<Longrightarrow> articles w' = articles w"
proof -
  assume a: "SaveMany e arts w = (Some err, arts', w')"
  obtain r2 arts2 tx2 w2 where s: "saveLoop e arts (articles w) w = (r2, arts2, tx2, w2)"
    by (cases "saveLoop e arts (articles w) w")
  from saveLoop_frame [OF s] a s show ?thesis
    by (auto simp: SaveMany_def split: option.splits)
qed

lemma saveLoop_append:
  "saveLoop e pre tx w = (None, pre', tx1, w1) \<Longrightarrow>
   saveLoop e rest tx1 w1 = (r, rest', tx2, w2) \<Longrightarrow>
   saveLoop e (pre @ rest) tx w = (r, pre' @ rest', tx2, w2)"
proof (induction pre arbitrary: tx w pre')
  case Nil
  then show ?case by simp
next
  case (Cons a pre)
  obtain a1 wa where f: "fillDefaults e a w = (a1, wa)"
    by (cases "fillDefaults e a w")
  show ?case
  proof (cases "fault e (Insert (insertParams a1))")
    case (Some err)
    then show ?thesis using Cons.prems f by simp
  next
    case None
    obtain r3 pre3 tx3 w3 where s: "saveLoop e pre (upsert (insertParams a1) tx) wa = (r3, pre3, tx3, w3)"
      by (cases "saveLoop e pre (upsert (insertParams a1) tx) wa")
    with Cons.prems(1) f None have e: "r3 = None" "pre' = a1 # pre3" "tx3 = tx1" "w3 = w1"
      by simp_all
    from Cons.IH [OF s [unfolded e] Cons.prems(2)] f None show ?thesis
      by (simp add: e)
  qed
qed

lemma saveLoop_inserted:
  "saveLoop e pre tx w = (None, pre', tx1, w1) \<Longrightarrow>
     tx1 = fold (\<lambda>a. upsert (insertParams a)) pre' tx"
proof (induction pre arbitrary: tx w pre')
  case Nil
  then show ?case by simp
next
  case (Cons a pre)
  obtain a1 wa where f: "fillDefaults e a w = (a1, wa)"
    by (cases "fillDefaults e a w")
  show ?case
  proof (cases "fault e (Insert (insertParams a1))")
    case (Some err)
    then show ?thesis using Cons.prems f by simp
  next
    case None
    obtain r3 pre3 tx3 w3 where s: "saveLoop e pre (upsert (insertParams a1) tx) wa = (r3, pre3, tx3, w3)"
      by (cases "saveLoop e pre (upsert (insertParams a1) tx) wa")
    with Cons.prems(1) f None have e: "r3 = None" "pre' = a1 # pre3" "tx3 = tx1" "w3 = w1"
      by simp_all
    from Cons.IH [OF s [unfolded e]] show ?thesis
      by (simp add: e)
  qed
qed

text \<open>
  C3. \<^verbatim>\<open>SaveMany\<close> is all or nothing. When the transaction has begun, the loop has
  accepted the records \<open>pre\<close> (they are in the transaction's rows \<open>tx\<close>) and the database
  refuses the insert of the next record \<open>a\<close> (with its defaults filled in: \<open>a'\<close>), the call
  returns the error \<open>InsertArticle\<close> with the identifier of that record and the driver's
  error, and the table is the one before the call: neither the records before the refused
  one nor those after it are persisted.
\<close>

theorem SaveMany_all_or_nothing:
  assumes "fault e Beginx = None"
    and "saveLoop e pre (articles w) w = (None, pre', tx, w1)"
    and "fillDefaults e a w1 = (a', w2)"
    and "fault e (Insert (insertParams a')) = Some cause"
  shows "fst (SaveMany e (pre @ a # post) w) = Some (InsertArticle (ID a') (Driver cause))
       \<and> articles (snd (snd (SaveMany e (pre @ a # post) w))) = articles w
       \<and> tx = fold (\<lambda>x. upsert (insertParams x)) pre' (articles w)"
proof -
  have l: "saveLoop e (a # post) tx w1
             = (Some (InsertArticle (ID a') (Driver cause)), a' # post, tx, w2)"
    using assms(3,4) by simp
  have s: "saveLoop e (pre @ a # post) (articles w) w
             = (Some (InsertArticle (ID a') (Driver cause)), pre' @ a' # post, tx, w2)"
    by (rule saveLoop_append [OF assms(2) l])
  have m: "SaveMany e (pre @ a # post) w
             = (Some (InsertArticle (ID a') (Driver cause)), pre' @ a' # post, w2)"
    using assms(1) s by (simp add: SaveMany_def)
  show ?thesis
    using m SaveMany_error_keeps_table [OF m] saveLoop_inserted [OF assms(2)] by simp
qed


text \<open>A batch of three whose second record the database refuses: the table keeps its one row.\<close>

theorem SaveMany_all_or_nothing_witness:
  "fault (demoEnv refuseBad (Inl []) (\<lambda>b. None)) Beginx = None
   \<and> fault (demoEnv refuseBad (Inl []) (\<lambda>b. None)) (Insert (insertParams (demoArticle ''bad'')))
       = Some ''invalid input syntax for type uuid''
   \<and> fst (SaveMany (demoEnv refuseBad (Inl []) (\<lambda>b. None))
            [demoArticle ''a2'', demoArticle ''bad'', demoArticle ''a3''] demoWorld)
       = Some (InsertArticle ''bad'' (Driver ''invalid input syntax for type uuid''))
   \<and> articles (snd (snd (SaveMany (demoEnv refuseBad (Inl []) (\<lambda>b. None))
            [demoArticle ''a2'', demoArticle ''bad'', demoArticle ''a3''] demoWorld)))
       = [demoRow]"
proof -
  let ?e = "demoEnv refuseBad (Inl []) (\<lambda>b. None)"
  let ?a2 = "(demoArticle ''a2'')\<lparr>Categories := Some []\<rparr>"
  let ?bad = "(demoArticle ''bad'')\<lparr>Categories := Some []\<rparr>"
  have b: "fault ?e Beginx = None"
    by (simp add: demoEnv_def refuseBad_def)
  have d2: "fillDefaults ?e (demoArticle ''a2'') demoWorld = (?a2, demoWorld)"
    by (simp add: fillDefaults_def demoArticle_def)
  have i2: "fault ?e (Insert (insertParams ?a2)) = None"
    by (simp add: demoEnv_def refuseBad_def insertParams_def demoArticle_def)
  have l: "saveLoop ?e [demoArticle ''a2''] (articles demoWorld) demoWorld
             = (None, [?a2], upsert (insertParams ?a2) (articles demoWorld), demoWorld)"
    by (simp add: d2 i2)
  have db: "fillDefaults ?e (demoArticle ''bad'') demoWorld = (?bad, demoWorld)"
    by (simp add: fillDefaults_def demoArticle_def)
  have ib: "fault ?e (Insert (insertParams ?bad)) = Some ''invalid input syntax for type uuid''"
    by (simp add: demoEnv_def refuseBad_def insertParams_def demoArticle_def)
  have ib': "fault ?e (Insert (insertParams (demoArticle ''bad''))) = Some ''invalid input syntax for type uuid''"
    by (simp add: demoEnv_def refuseBad_def insertParams_def demoArticle_def)
  have id: "ID ?bad = ''bad''"
    by (simp add: demoArticle_def)
  show ?thesis
    using SaveMany_all_or_nothing [OF b l db ib, of "[demoArticle ''a3'']"] b ib'
    by (simp add: id demoWorld_def)
qed

text \<open>
  C10. \<^verbatim>\<open>UpdateLLMSummary\<close> for an identifier that no row has leaves the state as it is and
  never returns \<open>ArticleNotFound\<close>: it returns no error when the database executes the
  statement (and the driver's error otherwise).
\<close>

theorem UpdateLLMSummary_missing:
  assumes "\<forall>r \<in> set (articles w). id_col r \<noteq> i"
  shows "snd (UpdateLLMSummary e i summary w) = w
       \<and> fst (UpdateLLMSummary e i summary w) \<noteq> Some ArticleNotFound
       \<and> (fault e (UpdateSummary summary i) = None \<longrightarrow> fst (UpdateLLMSummary e i summary w) = None)"
proof -
  have "map (\<lambda>r. if id_col r = i then r\<lparr>llm_summary := summary\<rparr> else r) (articles w) = articles w"
    using assms by (simp add: map_idI)
  then show ?thesis
    by (simp add: UpdateLLMSummary_def split: option.splits)
qed

text \<open>The identifier \<^verbatim>\<open>zz\<close> is not in the table of the small instance.\<close>

theorem UpdateLLMSummary_missing_witness:
  "list_all (\<lambda>r. id_col r \<noteq> ''zz'') (articles demoWorld)
   \<and> fault (demoEnv noFault (Inl []) (\<lambda>b. None)) (UpdateSummary ''s'' ''zz'') = None
   \<and> UpdateLLMSummary (demoEnv noFault (Inl []) (\<lambda>b. None)) ''zz'' ''s'' demoWorld = (None, demoWorld)"
proof -
  have a: "\<forall>r \<in> set (articles demoWorld). id_col r \<noteq> ''zz''"
    by (simp add: demoWorld_def demoRow_def)
  have f: "fault (demoEnv noFault (Inl []) (\<lambda>b. None)) (UpdateSummary ''s'' ''zz'') = None"
    by (simp add: demoEnv_def noFault_def)
  show ?thesis
    using UpdateLLMSummary_missing [OF a, of "demoEnv noFault (Inl []) (\<lambda>b. None)" "''s''"] a f
    by (simp add: prod_eq_iff list_all_iff)
qed

lemma GetByIDs_absent:
  "\<forall>r \<in> set (articles w). id_col r \<noteq> i \<Longrightarrow>
     GetByIDs e [i] w = (case fault e (SelectByID i) of Some err \<Rightarrow> Inl (Driver err) | None \<Rightarrow> Inr [])"
proof -
  assume "\<forall>r \<in> set (articles w). id_col r \<noteq> i"
  then have "filter (\<lambda>r. id_col r = i) (articles w) = []"
    by (simp add: filter_empty_conv)
  then show ?thesis
    by (simp add: GetByIDs_def noDistance_def split: option.splits)
qed

text \<open>
  C4, as amended. \<^verbatim>\<open>SummarizeArticle\<close> for an identifier that no row has fails and leaves
  the state as it is: no call of the LLM client is recorded and the table is unchanged.
  The error is \<open>ArticleNotFound\<close> when the database executes the lookup, and \<open>FetchArticle\<close>
  with the driver's error when the database refuses the lookup itself.
\<close>

theorem SummarizeArticle_not_found:
  assumes "\<forall>r \<in> set (articles w). id_col r \<noteq> i"
  shows "snd (SummarizeArticle e c i w) = w
       \<and> (fault e (SelectByID i) = None \<longrightarrow> fst (SummarizeArticle e c i w) = Inl ArticleNotFound)
       \<and> (\<forall>err. fault e (SelectByID i) = Some err \<longrightarrow>
             fst (SummarizeArticle e c i w) = Inl (FetchArticle (Driver err)))"
  using GetByIDs_absent [OF assms, of e]
  by (simp add: SummarizeArticle_def split: option.splits)

text \<open>The same absent identifier, summarized.\<close>

theorem SummarizeArticle_not_found_witness:
  "list_all (\<lambda>r. id_col r \<noteq> ''zz'') (articles demoWorld)
   \<and> fault (demoEnv noFault (Inl []) (\<lambda>b. None)) (SelectByID ''zz'') = None
   \<and> SummarizeArticle (demoEnv noFault (Inl []) (\<lambda>b. None)) demoClient ''zz'' demoWorld
       = (Inl ArticleNotFound, demoWorld)"
proof -
  have a: "\<forall>r \<in> set (articles demoWorld). id_col r \<noteq> ''zz''"
    by (simp add: demoWorld_def demoRow_def)
  have f: "fault (demoEnv noFault (Inl []) (\<lambda>b. None)) (SelectByID ''zz'') = None"
    by (simp add: demoEnv_def noFault_def)
  show ?thesis
    using SummarizeArticle_not_found [OF a, of "demoEnv noFault (Inl []) (\<lambda>b. None)" demoClient] a f
    by (simp add: prod_eq_iff list_all_iff)
qed

text \<open>
  C4 as stated, with \<open>ArticleNotFound\<close> for every identifier that no row has, fails at the
  identifier \<^verbatim>\<open>nonexistent-id\<close>: it is no UUID, the database refuses the lookup, and the
  service returns the fetch error.
\<close>

theorem SummarizeArticle_not_found_counterexample:
  "map id_col (articles demoWorld) = [''a1'']
   \<and> SummarizeArticle uuidEnv demoClient ''nonexistent-id'' demoWorld
       = (Inl (FetchArticle (Driver ''invalid input syntax for type uuid'')), demoWorld)
   \<and> fst (SummarizeArticle uuidEnv demoClient ''nonexistent-id'' demoWorld) \<noteq> Inl ArticleNotFound"
proof -
  have f: "fault uuidEnv (SelectByID ''nonexistent-id'') = Some ''invalid input syntax for type uuid''"
    by (simp add: uuidEnv_def demoEnv_def uuidColumn_def isHexDigit_def)
  have g: "GetByIDs uuidEnv [''nonexistent-id''] demoWorld
             = Inl (Driver ''invalid input syntax for type uuid'')"
    by (simp add: GetByIDs_def f)
  have s: "SummarizeArticle uuidEnv demoClient ''nonexistent-id'' demoWorld
       = (Inl (FetchArticle (Driver ''invalid input syntax for type uuid'')), demoWorld)"
    by (simp add: SummarizeArticle_def g)
  have m: "map id_col (articles demoWorld) = [''a1'']"
    by (simp add: demoWorld_def demoRow_def)
  show ?thesis
    unfolding s using m by simp
qed

lemma key_unique:
  "primaryKey rs \<Longrightarrow> x \<in> set rs \<Longrightarrow> y \<in> set rs \<Longrightarrow> id_col x = id_col y \<Longrightarrow> x = y"
  by (auto simp: primaryKey_def distinct_map dest: inj_onD)

lemma filter_key:
  "primaryKey rs \<Longrightarrow> r \<in> set rs \<Longrightarrow> filter (\<lambda>x. id_col x = id_col r) rs = [r]"
proof (induction rs)
  case Nil
  then show ?case by simp
next
  case (Cons x rs)
  have pk: "primaryKey rs" and fresh: "id_col x \<notin> id_col ` set rs"
    using Cons.prems(1) by (simp_all add: primaryKey_def)
  show ?case
  proof (cases "id_col x = id_col r")
    case True
    then have "x = r"
      using key_unique [OF Cons.prems(1), of x r] Cons.prems(2) by simp
    moreover have "\<forall>y \<in> set rs. id_col y \<noteq> id_col r"
      using fresh True by (metis imageI)
    then have "filter (\<lambda>y. id_col y = id_col r) rs = []"
      by (simp add: filter_empty_conv)
    ultimately show ?thesis by simp
  next
    case False
    then have "r \<in> set rs" using Cons.prems(2) by auto
    then show ?thesis using Cons.IH [OF pk] False by simp
  qed
qed

lemma upsert_ids:
  "map id_col (upsert r rs) =
     (if id_col r \<in> id_col ` set rs then map id_col rs else map id_col rs @ [id_col r])"
  by (induction rs) auto

lemma primaryKey_upsert: "primaryKey rs \<Longrightarrow> primaryKey (upsert r rs)"
  by (simp add: primaryKey_def upsert_ids)

lemma upsert_mem: "r \<in> set (upsert r rs)"
  by (induction rs) auto

lemma upsert_length: "id_col r \<in> id_col ` set rs \<Longrightarrow> length (upsert r rs) = length rs"
  by (induction rs) auto

lemma upsert_same: "primaryKey rs \<Longrightarrow> r \<in> set rs \<Longrightarrow> upsert r rs = rs"
proof (induction rs)
  case Nil
  then show ?case by simp
next
  case (Cons x rs)
  show ?case
  proof (cases "id_col x = id_col r")
    case True
    then have "x = r"
      using key_unique [OF Cons.prems(1), of x r] Cons.prems(2) by simp
    then show ?thesis by simp
  next
    case False
    then have "r \<in> set rs" using Cons.prems(2) by auto
    moreover have "primaryKey rs" using Cons.prems(1) by (simp add: primaryKey_def)
    ultimately show ?thesis using Cons.IH False by simp
  qed
qed

lemma scan_roundtrip:
  "scan (r, d) = Inr a \<Longrightarrow> insertParams (a\<lparr>LLMSummary := s\<rparr>) = r\<lparr>llm_summary := s\<rparr>"
  by (cases r) (auto simp: scan_def insertParams_def split: option.splits)

lemma scan_fields:
  "scan (r, d) = Inr a \<Longrightarrow>
     ID a = id_col r \<and> Title a = title r \<and> Description a = description r
     \<and> PublishedAt a = published_at r \<and> Categories a = Some (categories r) \<and> DistanceKm a = d"
  by (auto simp: scan_def split: option.splits)

lemma scan_saved: "saved r \<Longrightarrow> \<exists>a. scan (r, d) = Inr a"
  by (auto simp: scan_def saved_def split: option.splits)

lemma GetByIDs_present:
  assumes "primaryKey (articles w)" "r \<in> set (articles w)" "scan (r, 0) = Inr a"
  shows "GetByIDs e [id_col r] w =
           (case fault e (SelectByID (id_col r)) of Some err \<Rightarrow> Inl (Driver err) | None \<Rightarrow> Inr [a])"
  using filter_key [OF assms(1,2)] assms(3)
  by (simp add: GetByIDs_def noDistance_def split: option.splits)

lemma content_spec: "scan (r, d) = Inr a \<Longrightarrow> summaryContent a = spec_content r"
  by (auto simp: spec_content_def summaryContent_def Let_def dest!: scan_fields)

lemma fillDefaults_saved:
  "ID a \<noteq> [] \<Longrightarrow> Categories a \<noteq> None \<Longrightarrow> PublishedAt a \<noteq> 0 \<Longrightarrow> fillDefaults e a w = (a, w)"
  by (auto simp: fillDefaults_def)

lemma SaveMany_one_saved:
  assumes "ID a \<noteq> []" "Categories a \<noteq> None" "PublishedAt a \<noteq> 0"
  shows "SaveMany e [a] w =
     (case fault e Beginx of
        Some err \<Rightarrow> (Some (Driver err), [a], w)
      | None \<Rightarrow>
         (case fault e (Insert (insertParams a)) of
            Some err \<Rightarrow> (Some (InsertArticle (ID a) (Driver err)), [a], w)
          | None \<Rightarrow>
             (case fault e Commit of
                Some err \<Rightarrow> (Some (Driver err), [a], w)
              | None \<Rightarrow> (None, [a], w\<lparr>articles := upsert (insertParams a) (articles w)\<rparr>))))"
  by (simp add: SaveMany_def fillDefaults_saved [OF assms] split: option.splits)

lemma UpdateLLMSummary_after_upsert:
  assumes "primaryKey rs" "llm_summary r = s"
  shows "map (\<lambda>x. if id_col x = id_col r then x\<lparr>llm_summary := s\<rparr> else x) (upsert r rs) = upsert r rs"
proof (rule map_idI)
  fix x assume x: "x \<in> set (upsert r rs)"
  show "(if id_col x = id_col r then x\<lparr>llm_summary := s\<rparr> else x) = x"
  proof (cases "id_col x = id_col r")
    case True
    then have "x = r"
      using key_unique [OF primaryKey_upsert [OF assms(1)] x upsert_mem] by simp
    then show ?thesis using assms(2) by auto
  next
    case False
    then show ?thesis by simp
  qed
qed

lemma SummarizeArticle_stored:
  assumes "primaryKey (articles w)" "r \<in> set (articles w)" "saved r"
  shows "SummarizeArticle e c (id_col r) w =
     (case fault e (SelectByID (id_col r)) of
        Some err \<Rightarrow> (Inl (FetchArticle (Driver err)), w)
      | None \<Rightarrow>
         (case SummarizeArticleText e c (title r) (spec_content r) w of
            (Inl err, w1) \<Rightarrow> (Inl (LlmSummarize err), w1)
          | (Inr s, w1) \<Rightarrow>
             (case fault e Beginx of
                Some err \<Rightarrow> (Inl (SaveSummary (Driver err)), w1)
              | None \<Rightarrow>
                 (case fault e (Insert (r\<lparr>llm_summary := s\<rparr>)) of
                    Some err \<Rightarrow> (Inl (SaveSummary (InsertArticle (id_col r) (Driver err))), w1)
                  | None \<Rightarrow>
                     (case fault e Commit of
                        Some err \<Rightarrow> (Inl (SaveSummary (Driver err)), w1)
                      | None \<Rightarrow>
                         (case fault e (UpdateSummary s (id_col r)) of
                            Some err \<Rightarrow>
                              (Inl (SaveSummary (Driver err)),
                               w1\<lparr>articles := upsert (r\<lparr>llm_summary := s\<rparr>) (articles w1)\<rparr>)
                          | None \<Rightarrow>
                              (Inr s,
                               w1\<lparr>articles := upsert (r\<lparr>llm_summary := s\<rparr>) (articles w1)\<rparr>)))))))"
proof -
  obtain a where a: "scan (r, 0) = Inr a"
    using scan_saved [OF assms(3)] by blast
  note fields = scan_fields [OF a]
  have ti: "Title a = title r"
    using fields by simp
  note content = content_spec [OF a]
  show ?thesis
  proof (cases "fault e (SelectByID (id_col r))")
    case (Some err)
    then show ?thesis
      using GetByIDs_present [OF assms(1,2) a, of e] by (simp add: SummarizeArticle_def)
  next
    case None
    then have g: "GetByIDs e [id_col r] w = Inr [a]"
      using GetByIDs_present [OF assms(1,2) a, of e] by simp
    obtain res w1 where t: "SummarizeArticleText e c (title r) (spec_content r) w = (res, w1)"
      by (cases "SummarizeArticleText e c (title r) (spec_content r) w")
    have w1: "articles w1 = articles w"
      using t by (auto simp: SummarizeArticleText_def Let_def split: option.splits sum.splits if_splits)
    show ?thesis
    proof (cases res)
      case (Inl err)
      then show ?thesis
        using None g t by (simp add: SummarizeArticle_def ti content)
    next
      case (Inr s)
      let ?a = "a\<lparr>LLMSummary := s\<rparr>"
      let ?r = "r\<lparr>llm_summary := s\<rparr>"
      have ok: "ID ?a \<noteq> []" "Categories ?a \<noteq> None" "PublishedAt ?a \<noteq> 0"
        using fields assms(3) by (simp_all add: saved_def)
      have ip: "insertParams ?a = ?r"
        by (rule scan_roundtrip [OF a])
      have ida: "ID ?a = id_col r"
        using fields by simp
      have upd: "map (\<lambda>x. if id_col x = id_col r then x\<lparr>llm_summary := s\<rparr> else x)
                   (upsert ?r (articles w1)) = upsert ?r (articles w1)"
        using UpdateLLMSummary_after_upsert [of "articles w1" ?r s] assms(1) w1 by simp
      have sm: "SaveMany e [?a] w1 =
         (case fault e Beginx of
            Some err \<Rightarrow> (Some (Driver err), [?a], w1)
          | None \<Rightarrow>
             (case fault e (Insert ?r) of
                Some err \<Rightarrow> (Some (InsertArticle (id_col r) (Driver err)), [?a], w1)
              | None \<Rightarrow>
                 (case fault e Commit of
                    Some err \<Rightarrow> (Some (Driver err), [?a], w1)
                  | None \<Rightarrow> (None, [?a], w1\<lparr>articles := upsert ?r (articles w1)\<rparr>))))"
        by (simp only: SaveMany_one_saved [OF ok] ip ida)
      have "SummarizeArticle e c (id_col r) w =
         (case SaveMany e [?a] w1 of
            (Some err, arts, w2) \<Rightarrow> (Inl (SaveSummary err), w2)
          | (None, arts, w2) \<Rightarrow>
              (case UpdateLLMSummary e (ID (hd arts)) s w2 of
                 (Some err, w3) \<Rightarrow> (Inl (SaveSummary err), w3)
               | (None, w3) \<Rightarrow> (Inr s, w3)))"
        using None g t Inr by (simp add: SummarizeArticle_def ti content)
      also have "\<dots> = (case fault e Beginx of
                Some err \<Rightarrow> (Inl (SaveSummary (Driver err)), w1)
              | None \<Rightarrow>
                 (case fault e (Insert ?r) of
                    Some err \<Rightarrow> (Inl (SaveSummary (InsertArticle (id_col r) (Driver err))), w1)
                  | None \<Rightarrow>
                     (case fault e Commit of
                        Some err \<Rightarrow> (Inl (SaveSummary (Driver err)), w1)
                      | None \<Rightarrow>
                         (case fault e (UpdateSummary s (id_col r)) of
                            Some err \<Rightarrow>
                              (Inl (SaveSummary (Driver err)),
                               w1\<lparr>articles := upsert ?r (articles w1)\<rparr>)
                          | None \<Rightarrow>
                              (Inr s, w1\<lparr>articles := upsert ?r (articles w1)\<rparr>)))))"
        unfolding sm using ida upd
        by (simp add: UpdateLLMSummary_def split: option.splits)
      finally show ?thesis
        using None t Inr by simp
    qed
  qed
qed

lemma SummarizeArticleText_frame:
  "llm_calls (snd (SummarizeArticleText e c t x w)) = llm_calls w @ [(t, x)]"
  "articles (snd (SummarizeArticleText e c t x w)) = articles w"
  by (simp_all add: SummarizeArticleText_def Let_def split: option.splits sum.splits)

lemma SummarizeArticleText_env:
  "NewRequest e2 = NewRequest e1 \<Longrightarrow> hc_Do e2 = hc_Do e1 \<Longrightarrow> json_Unmarshal e2 = json_Unmarshal e1 \<Longrightarrow>
     fst (SummarizeArticleText e2 c t x w2) = fst (SummarizeArticleText e1 c t x w1)"
  by (simp add: SummarizeArticleText_def Let_def split: option.splits sum.splits)

lemma UpdateLLMSummary_calls: "llm_calls (snd (UpdateLLMSummary e i s w)) = llm_calls w"
  by (simp add: UpdateLLMSummary_def split: option.splits)

lemma SaveMany_calls: "llm_calls (snd (snd (SaveMany e arts w))) = llm_calls w"
  using SaveMany_frame [of e arts w] by (cases "SaveMany e arts w") simp

text \<open>
  C7. For a stored article that the fetch returns, \<^verbatim>\<open>SummarizeArticle\<close> calls the LLM client
  once, with the article's title and, as the text, the description when it is not empty
  and the title otherwise, cut to its first 30000 bytes.
\<close>

theorem SummarizeArticle_content:
  assumes "primaryKey (articles w)" and "r \<in> set (articles w)"
    and "latitude r \<noteq> None" and "longitude r \<noteq> None"
    and "fault e (SelectByID (id_col r)) = None"
  shows "llm_calls (snd (SummarizeArticle e c (id_col r) w))
           = llm_calls w @ [(title r, take 30000 (if description r \<noteq> [] then description r else title r))]
       \<and> length (take 30000 (if description r \<noteq> [] then description r else title r)) \<le> 30000"
proof -
  obtain a where a: "scan (r, 0) = Inr a"
    using assms(3,4) by (auto simp: scan_def)
  have g: "GetByIDs e [id_col r] w = Inr [a]"
    using GetByIDs_present [OF assms(1,2) a, of e] assms(5) by simp
  have ti: "Title a = title r"
    using scan_fields [OF a] by simp
  let ?x = "spec_content r"
  obtain res w1 where t: "SummarizeArticleText e c (title r) ?x w = (res, w1)"
    by (cases "SummarizeArticleText e c (title r) ?x w")
  have w1: "llm_calls w1 = llm_calls w @ [(title r, ?x)]"
    using SummarizeArticleText_frame(1) [of e c "title r" ?x w] t by simp
  have "llm_calls (snd (SummarizeArticle e c (id_col r) w)) = llm_calls w1"
  proof (cases res)
    case (Inl err)
    then show ?thesis
      using g t by (simp add: SummarizeArticle_def ti content_spec [OF a])
  next
    case (Inr s)
    obtain r2 arts w2 where m: "SaveMany e [a\<lparr>LLMSummary := s\<rparr>] w1 = (r2, arts, w2)"
      by (cases "SaveMany e [a\<lparr>LLMSummary := s\<rparr>] w1")
    have w2: "llm_calls w2 = llm_calls w1"
      using SaveMany_calls [of e "[a\<lparr>LLMSummary := s\<rparr>]" w1] m by simp
    obtain r3 w3 where u: "UpdateLLMSummary e (ID (hd arts)) s w2 = (r3, w3)"
      by (cases "UpdateLLMSummary e (ID (hd arts)) s w2")
    have w3: "llm_calls w3 = llm_calls w2"
      using UpdateLLMSummary_calls [of e "ID (hd arts)" s w2] u by simp
    show ?thesis
      using g t Inr m u w2 w3
      by (simp add: SummarizeArticle_def ti content_spec [OF a] split: option.splits)
  qed
  then show ?thesis
    using w1 by (simp add: spec_content_def)
qed

text \<open>The stored article of the small instance has no description: its title is sent.\<close>

theorem SummarizeArticle_content_witness:
  "primaryKey (articles demoWorld) \<and> demoRow \<in> set (articles demoWorld)
   \<and> latitude demoRow \<noteq> None \<and> longitude demoRow \<noteq> None
   \<and> fault (demoEnv noFault (Inr \<lparr>StatusCode = 200, Body = ''sum''\<rparr>) (\<lambda>b. None))
        (SelectByID (id_col demoRow)) = None
   \<and> llm_calls (snd (SummarizeArticle (demoEnv noFault (Inr \<lparr>StatusCode = 200, Body = ''sum''\<rparr>) (\<lambda>b. None))
        demoClient ''a1'' demoWorld)) = [(''a'', ''a'')]"
proof -
  let ?e = "demoEnv noFault (Inr \<lparr>StatusCode = 200, Body = ''sum''\<rparr>) (\<lambda>b. None)"
  have 1: "primaryKey (articles demoWorld)"
    by (simp add: primaryKey_def demoWorld_def)
  have 2: "demoRow \<in> set (articles demoWorld)"
    by (simp add: demoWorld_def)
  have 3: "latitude demoRow \<noteq> None" and 4: "longitude demoRow \<noteq> None"
    by (simp_all add: demoRow_def)
  have 5: "fault ?e (SelectByID (id_col demoRow)) = None"
    by (simp add: demoEnv_def noFault_def)
  have i: "id_col demoRow = ''a1''" "title demoRow = ''a''" "description demoRow = []"
    by (simp_all add: demoRow_def)
  have c: "llm_calls demoWorld = []"
    by (simp add: demoWorld_def)
  show ?thesis
    using SummarizeArticle_content [OF 1 2 3 4 5, of demoClient] 1 2 3 4 5
    by (simp add: i c)
qed

lemma saved_summary: "saved r \<Longrightarrow> saved (r\<lparr>llm_summary := s\<rparr>)"
  by (simp add: saved_def)

text \<open>
  C1. Summarizing twice. Let the table have a primary key and hold the row \<open>r\<close>, written as
  \<^verbatim>\<open>SaveMany\<close> writes rows, and let a first \<^verbatim>\<open>SummarizeArticle\<close> of its identifier succeed
  with the summary \<open>s\<close>. If the collaborators answer a second call as they answered the
  first (the database refuses the same statements, the endpoint gives the same replies),
  the second call succeeds with the same summary and leaves the table as the first call
  left it: exactly one row has the identifier, it is \<open>r\<close> with the summary \<open>s\<close>, and the
  table has as many rows as before the first call.
\<close>

theorem SummarizeArticle_idempotent:
  assumes "primaryKey (articles w)" and "r \<in> set (articles w)" and "saved r"
    and "SummarizeArticle e1 c (id_col r) w = (Inr s, w1)"
    and "fault e2 = fault e1" and "NewRequest e2 = NewRequest e1" and "hc_Do e2 = hc_Do e1"
    and "json_Unmarshal e2 = json_Unmarshal e1"
  shows "fst (SummarizeArticle e2 c (id_col r) w1) = Inr s
       \<and> articles (snd (SummarizeArticle e2 c (id_col r) w1)) = articles w1
       \<and> filter (\<lambda>x. id_col x = id_col r) (articles w1) = [r\<lparr>llm_summary := s\<rparr>]
       \<and> length (articles w1) = length (articles w)"
proof -
  let ?r = "r\<lparr>llm_summary := s\<rparr>"
  let ?i = "id_col r"
  obtain res wa where t: "SummarizeArticleText e1 c (title r) (spec_content r) w = (res, wa)"
    by (cases "SummarizeArticleText e1 c (title r) (spec_content r) w")
  have wa: "articles wa = articles w"
    using SummarizeArticleText_frame(2) [of e1 c "title r" "spec_content r" w] t by simp
  note first = assms(4) [unfolded SummarizeArticle_stored [OF assms(1-3)] t]
  have f: "fault e1 (SelectByID ?i) = None" "res = Inr s" "fault e1 Beginx = None"
    "fault e1 (Insert ?r) = None" "fault e1 Commit = None" "fault e1 (UpdateSummary s ?i) = None"
    "w1 = wa\<lparr>articles := upsert ?r (articles wa)\<rparr>"
    using first by (auto split: option.splits sum.splits)
  have rows1: "articles w1 = upsert ?r (articles w)"
    using f(7) wa by simp
  have pk1: "primaryKey (articles w1)"
    using rows1 primaryKey_upsert [OF assms(1)] by simp
  have in1: "?r \<in> set (articles w1)"
    using rows1 upsert_mem by simp
  have sv1: "saved ?r"
    by (rule saved_summary [OF assms(3)])
  obtain res2 wb where t2: "SummarizeArticleText e2 c (title r) (spec_content r) w1 = (res2, wb)"
    by (cases "SummarizeArticleText e2 c (title r) (spec_content r) w1")
  have r2: "res2 = Inr s"
    using SummarizeArticleText_env [OF assms(6-8), of c "title r" "spec_content r" w1 w] t t2 f(2)
    by simp
  have wb: "articles wb = articles w1"
    using SummarizeArticleText_frame(2) [of e2 c "title r" "spec_content r" w1] t2 by simp
  have same: "upsert ?r (articles wb) = articles w1"
    using upsert_same [OF pk1 in1] wb by simp
  have eqs: "id_col ?r = ?i" "title ?r = title r" "spec_content ?r = spec_content r"
    "?r\<lparr>llm_summary := s\<rparr> = ?r"
    by (simp_all add: spec_content_def)
  have t2': "SummarizeArticleText e2 c (title r) (spec_content r) w1 = (Inr s, wb)"
    using t2 r2 by simp
  have second: "SummarizeArticle e2 c ?i w1 = (Inr s, wb\<lparr>articles := articles w1\<rparr>)"
    using SummarizeArticle_stored [OF pk1 in1 sv1, of e2 c]
    unfolding eqs t2' assms(5)
    by (simp add: f(1,3,4,5,6) same)
  have one: "filter (\<lambda>x. id_col x = ?i) (articles w1) = [?r]"
    using filter_key [OF pk1 in1] by simp
  have len: "length (articles w1) = length (articles w)"
    using rows1 upsert_length [of ?r "articles w"] assms(2) by auto
  show ?thesis
    using second one len by simp
qed

text \<open>
  The stored article of the small instance, summarized twice by an endpoint that answers
  200 with the same text: both calls succeed and the table holds the one row.
\<close>

theorem SummarizeArticle_idempotent_witness:
  "primaryKey (articles demoWorld) \<and> demoRow \<in> set (articles demoWorld) \<and> saved demoRow
   \<and> fst (SummarizeArticle (demoEnv noFault (Inr \<lparr>StatusCode = 200, Body = ''sum''\<rparr>) (\<lambda>b. None))
            demoClient ''a1'' demoWorld) = Inr ''sum''
   \<and> fst (SummarizeArticle (demoEnv noFault (Inr \<lparr>StatusCode = 200, Body = ''sum''\<rparr>) (\<lambda>b. None))
            demoClient ''a1''
            (snd (SummarizeArticle (demoEnv noFault (Inr \<lparr>StatusCode = 200, Body = ''sum''\<rparr>) (\<lambda>b. None))
                    demoClient ''a1'' demoWorld))) = Inr ''sum''
   \<and> articles (snd (SummarizeArticle (demoEnv noFault (Inr \<lparr>StatusCode = 200, Body = ''sum''\<rparr>) (\<lambda>b. None))
            demoClient ''a1''
            (snd (SummarizeArticle (demoEnv noFault (Inr \<lparr>StatusCode = 200, Body = ''sum''\<rparr>) (\<lambda>b. None))
                    demoClient ''a1'' demoWorld))))
       = [demoRow\<lparr>llm_summary := ''sum''\<rparr>]"
proof -
  let ?e = "demoEnv noFault (Inr \<lparr>StatusCode = 200, Body = ''sum''\<rparr>) (\<lambda>b. None)"
  let ?w1 = "snd (SummarizeArticle ?e demoClient ''a1'' demoWorld)"
  have 1: "primaryKey (articles demoWorld)"
    by (simp add: primaryKey_def demoWorld_def)
  have 2: "demoRow \<in> set (articles demoWorld)"
    by (simp add: demoWorld_def)
  have 3: "saved demoRow"
    by (simp add: saved_def demoRow_def)
  have i: "id_col demoRow = ''a1''"
    by (simp add: demoRow_def)
  have t: "SummarizeArticleText ?e demoClient (title demoRow) (spec_content demoRow) demoWorld
             = (Inr ''sum'', demoWorld\<lparr>llm_calls := [(''a'', ''a'')], clock := 2\<rparr>)"
    by (simp add: SummarizeArticleText_def demoEnv_def normalizer_def demoWorld_def demoRow_def
          spec_content_def)
  have fl: "fault ?e x = None" for x
    by (simp add: demoEnv_def noFault_def)
  have first: "fst (SummarizeArticle ?e demoClient ''a1'' demoWorld) = Inr ''sum''"
    using SummarizeArticle_stored [OF 1 2 3, of ?e demoClient]
    by (simp add: i t fl)
  then have call: "SummarizeArticle ?e demoClient (id_col demoRow) demoWorld = (Inr ''sum'', ?w1)"
    by (simp add: i prod_eq_iff)
  have rows: "articles ?w1 = [demoRow\<lparr>llm_summary := ''sum''\<rparr>]"
    using SummarizeArticle_stored [OF 1 2 3, of ?e demoClient]
    by (simp add: i t fl) (simp add: demoWorld_def)
  show ?thesis
    using SummarizeArticle_idempotent [OF 1 2 3 call refl refl refl refl] 1 2 3 first rows
    by (simp add: i)
qed

section \<open>Nearby\<close>












section \<open>Search\<close>

lemma Atoi_10: "Atoi ''10'' = Some 10"
  by (simp add: Atoi_def isDigit_def digitsValue_def)

text \<open>
  C9. The request \<^verbatim>\<open>GET /v1/news/search?q=_&limit=10\<close> on the small instance: the limit
  is 10 and the stored article is returned, although neither its title \<^verbatim>\<open>a\<close> nor its
  empty description contains the query \<^verbatim>\<open>_\<close>. The query is put into the pattern of
  \<^verbatim>\<open>ILIKE\<close> as it is, where \<^verbatim>\<open>_\<close> stands for any one character.
\<close>

theorem Search_wildcard:
  "Handler_Search quietEnv ''_'' (Some ''10'') demoWorld = (10, Inr [demoFound])
   \<and> \<not> substring_fold ''_'' (Title demoFound) \<and> \<not> substring_fold ''_'' (Description demoFound)"
proof -
  have l: "parseLimit (DefaultQuery (Some ''10'') ''10'') = 10"
    by (simp add: parseLimit_def DefaultQuery_def Atoi_10)
  have m: "ILIKE (title demoRow) ''%_%''" "\<not> ILIKE (description demoRow) ''%_%''"
    by (simp_all add: ILIKE_def lower_def demoRow_def)
  have s: "Search quietEnv ''_'' 10 demoWorld = Inr [demoFound]"
    using m
    by (simp add: Search_def quietEnv_def demoEnv_def noFault_def demoWorld_def noDistance_def)
       (simp add: scan_def demoRow_def demoFound_def)
  have n: "\<not> substring_fold ''_'' ''a''" "\<not> substring_fold ''_'' []"
    by (simp_all add: substring_fold_def substring_def lower_def)
  show ?thesis
    using l s n by (simp add: Handler_Search_def Service_Search_def demoFound_def)
qed

text \<open>
  What holds of the rest of C9: \<^verbatim>\<open>parseLimit\<close> returns 10 when \<^verbatim>\<open>Atoi\<close> fails or the
  number is not positive, the number cut at 200 otherwise, so always a limit between 1 and
  200; and what \<^verbatim>\<open>Search\<close> returns is at most its limit (10 for a limit above 100) many
  articles, each of a row that matches the pattern, in descending order of relevance and
  then of publication time.
\<close>

lemma parseLimit_bounds: "1 \<le> parseLimit s \<and> parseLimit s \<le> 200"
  by (simp add: parseLimit_def split: option.splits)

lemma parseLimit_cases:
  "parseLimit s = (case Atoi s of None \<Rightarrow> 10 | Some l \<Rightarrow> if l \<le> 0 then 10 else min l 200)"
  by (simp add: parseLimit_def split: option.splits)

lemma scanAll_list_all2:
  "scanAll xs = Inr ys \<Longrightarrow> list_all2 (\<lambda>x y. scan x = Inr y) xs ys"
  by (induction xs arbitrary: ys) (auto split: sum.splits)

lemma scan_key:
  "scan (r, d) = Inr a \<Longrightarrow> (- Relevance a, - PublishedAt a) = byRelevanceRecency r \<and> ID a = id_col r"
  by (auto simp: scan_def byRelevanceRecency_def split: option.splits)

lemma Search_found:
  assumes "Search e q limit w = Inr res"
  shows "int (length res) \<le> (if limit \<le> 0 \<or> limit > 100 then 10 else limit)
       \<and> sorted (map (\<lambda>a. (- Relevance a, - PublishedAt a)) res)
       \<and> (\<forall>a \<in> set res. \<exists>r \<in> set (articles w). ID a = id_col r
             \<and> (ILIKE (title r) (''%'' @ q @ ''%'') \<or> ILIKE (description r) (''%'' @ q @ ''%'')))"
proof -
  define n where "n = (if limit \<le> 0 \<or> limit > 100 then 10 else limit)"
  define m where "m = filter (\<lambda>r. ILIKE (title r) (''%'' @ q @ ''%'')
                                \<or> ILIKE (description r) (''%'' @ q @ ''%'')) (articles w)"
  define sel where "sel = take (nat n) (sort_key byRelevanceRecency m)"
  have s: "scanAll (noDistance sel) = Inr res"
    using assms unfolding Search_def Let_def sel_def m_def n_def
    by (auto split: option.splits if_splits)
  have la: "list_all2 (\<lambda>x y. scan x = Inr y) (noDistance sel) res"
    by (rule scanAll_list_all2 [OF s])
  have len: "length res = length sel"
    using list_all2_lengthD [OF la] by (simp add: noDistance_def)
  have at: "scan (sel ! i, 0) = Inr (res ! i)" if "i < length res" for i
    using la that len by (simp add: list_all2_conv_all_nth noDistance_def)
  have keys: "map (\<lambda>a. (- Relevance a, - PublishedAt a)) res = map byRelevanceRecency sel"
    using len scan_key [OF at] by (intro nth_equalityI) simp_all
  have "sorted (map byRelevanceRecency (sort_key byRelevanceRecency m))"
    by (rule sorted_sort_key)
  then have "sorted (take (nat n) (map byRelevanceRecency (sort_key byRelevanceRecency m)))"
    by (rule sorted_wrt_take)
  then have so: "sorted (map (\<lambda>a. (- Relevance a, - PublishedAt a)) res)"
    by (simp add: keys take_map sel_def)
  have mem: "\<exists>r \<in> set (articles w). ID a = id_col r
             \<and> (ILIKE (title r) (''%'' @ q @ ''%'') \<or> ILIKE (description r) (''%'' @ q @ ''%''))"
    if a: "a \<in> set res" for a
  proof -
    obtain i where i: "i < length res" "res ! i = a"
      using a by (auto simp: in_set_conv_nth)
    have "sel ! i \<in> set sel"
      using i len by simp
    then have "sel ! i \<in> set m"
      using set_take_subset [of "nat n" "sort_key byRelevanceRecency m"] by (auto simp: sel_def)
    then show ?thesis
      using scan_key [OF at [OF i(1)]] i(2) by (auto simp: m_def)
  qed
  have "length sel \<le> nat n"
    by (simp add: sel_def)
  moreover have "0 < n"
    by (simp add: n_def)
  ultimately have "int (length res) \<le> n"
    using len by linarith
  then show ?thesis
    using so mem unfolding n_def by blast
qed

text \<open>
  For a query without \<^verbatim>\<open>%\<close>, \<^verbatim>\<open>_\<close> and backslash, the pattern of \<^verbatim>\<open>Search\<close> matches
  exactly the texts that contain the query, letter case aside.
\<close>

lemma LIKE_plain:
  "list_all plain q \<Longrightarrow>
     LIKE t (q @ ps) = (take (length q) t = q \<and> LIKE (drop (length q) t) ps)"
proof (induction q arbitrary: t)
  case Nil
  then show ?case by simp
next
  case (Cons c q)
  have q: "list_all plain q"
    using Cons.prems by simp
  have "plain c"
    using Cons.prems by simp
  then have c: "c \<noteq> CHR ''%''" "c \<noteq> CHR ''_''" "c \<noteq> CHR 0x5C"
    by (simp_all add: plain_def)
  show ?case
  proof (cases t)
    case Nil
    then show ?thesis using c by simp
  next
    case (Cons d ds)
    then show ?thesis using c Cons.IH [OF q, of ds] by auto
  qed
qed

lemma LIKE_percent:
  "LIKE t (CHR ''%'' # ps) = (\<exists>k \<le> length t. LIKE (drop k t) ps)"
proof (induction t)
  case Nil
  then show ?case by simp
next
  case (Cons c cs)
  have "(\<exists>k \<le> length (c # cs). LIKE (drop k (c # cs)) ps)
          = (LIKE (c # cs) ps \<or> (\<exists>k \<le> length cs. LIKE (drop k cs) ps))"
  proof
    assume "\<exists>k \<le> length (c # cs). LIKE (drop k (c # cs)) ps"
    then obtain k where k: "k \<le> length (c # cs)" "LIKE (drop k (c # cs)) ps" by blast
    show "LIKE (c # cs) ps \<or> (\<exists>k \<le> length cs. LIKE (drop k cs) ps)"
    proof (cases k)
      case 0
      then show ?thesis using k by simp
    next
      case (Suc j)
      then show ?thesis using k by auto
    qed
  next
    assume "LIKE (c # cs) ps \<or> (\<exists>k \<le> length cs. LIKE (drop k cs) ps)"
    then show "\<exists>k \<le> length (c # cs). LIKE (drop k (c # cs)) ps"
    proof
      assume "LIKE (c # cs) ps"
      then have "LIKE (drop 0 (c # cs)) ps" by simp
      then show ?thesis by blast
    next
      assume "\<exists>k \<le> length cs. LIKE (drop k cs) ps"
      then obtain k where "k \<le> length cs" "LIKE (drop k cs) ps" by blast
      then have "Suc k \<le> length (c # cs)" "LIKE (drop (Suc k) (c # cs)) ps" by simp_all
      then show ?thesis by blast
    qed
  qed
  then show ?case using Cons.IH by simp
qed

lemma LIKE_any: "LIKE t ''%''"
  by (subst LIKE_percent) (rule exI [of _ "length t"], simp)

lemma substring_iff: "substring q t = (\<exists>k \<le> length t. take (length q) (drop k t) = q)"
proof -
  have "set [0..<Suc (length t)] = {k. k \<le> length t}"
    by (auto simp del: upt_Suc)
  then show ?thesis
    unfolding substring_def list_ex_iff by blast
qed

lemma LIKE_contains:
  assumes "list_all plain q"
  shows "LIKE t (''%'' @ q @ ''%'') = substring q t"
proof -
  have "LIKE t (''%'' @ q @ ''%'') = LIKE t (CHR ''%'' # (q @ ''%''))"
    by (simp del: LIKE.simps)
  also have "\<dots> = (\<exists>k \<le> length t. LIKE (drop k t) (q @ ''%''))"
    by (rule LIKE_percent)
  also have "\<dots> = (\<exists>k \<le> length t. take (length q) (drop k t) = q)"
    by (simp only: LIKE_plain [OF assms] LIKE_any simp_thms)
  finally show ?thesis
    by (simp only: substring_iff)
qed

lemma lower_plain: "plain c \<Longrightarrow> plain (lower c)"
  by (auto simp: lower_def plain_def split: option.splits if_splits)

lemma lower_percent: "lower (CHR ''%'') = CHR ''%''"
  by (simp add: lower_def)

lemma ILIKE_contains:
  "list_all plain q \<Longrightarrow> ILIKE t (''%'' @ q @ ''%'') = substring_fold q t"
proof -
  assume "list_all plain q"
  then have "list_all plain (map lower q)"
    by (simp add: list_all_iff lower_plain)
  from LIKE_contains [OF this, of "map lower t"] show ?thesis
    by (simp add: ILIKE_def substring_fold_def lower_percent del: LIKE.simps)
qed

end
